theory Spec2Isabelle
  imports Main
begin

section \<open>The render-transaction runner of transaction.ts\<close>

text \<open>
  The module tracks which (object, key) pairs were rendered during a render transaction
  and signals a reflush when such a pair is modified again inside the same transaction.
  The class \<^verbatim>\<open>TransactionRunner\<close> is a record passed through every method; a method
  that can throw returns the thrown value beside the state it leaves behind.
\<close>

subsection \<open>Values\<close>

text \<open>
  Objects are WeakMap keys, compared by identity: an object is its identity here, and the
  methods are only applied to objects (their declared parameter type). Keys are strings.
\<close>

type_synonym obj = nat
type_synonym key = string

text \<open>
  A thrown value: the TypeError the language raises on a read through \<^verbatim>\<open>undefined\<close>
  or on a call of an unassigned binding, or any value thrown by code outside this module
  (the wrapped operation, the assertion facility).
\<close>

datatype error = TypeError string | Thrown string

text \<open>
  The \<^verbatim>\<open>reference\<close> argument of \<^verbatim>\<open>didRender\<close> has type \<^verbatim>\<open>any\<close>. The code only tests
  \<^verbatim>\<open>lastRef && typeof lastRef.debug === 'function'\<close> and then calls \<^verbatim>\<open>lastRef.debug()\<close>:
  a reference is falsy, or truthy without a \<^verbatim>\<open>debug\<close> function, or truthy with one. The
  function is the caller's: its call returns a string (\<open>Describable\<close>) or throws
  (\<open>Faulty\<close>).
\<close>

datatype reference = Falsy | Opaque | Describable string | Faulty error

fun debug :: "reference \<Rightarrow> (error + string) option" where
  "debug Falsy = None"
| "debug Opaque = None"
| "debug (Describable d) = Some (Inr d)"
| "debug (Faulty e) = Some (Inl e)"

text \<open>
  \<^verbatim>\<open>interface DebugStack { peek(): string | void }\<close>: a stack is what its \<^verbatim>\<open>peek\<close>
  returns. \<^verbatim>\<open>interface DebugContext { env: { debugStack: DebugStack } }\<close> is reached by
  a cast from \<^verbatim>\<open>object\<close>, so either level may be missing on the value that arrives.
\<close>

datatype DebugStack = DebugStack (peek: "string option")

datatype Env = Env (env_debugStack: "DebugStack option")

datatype DebugContext = DebugContext (env: "Env option")

text \<open>
  What \<^verbatim>\<open>setKey\<close> stores for a pair: \<^verbatim>\<open>{ lastRef, lastRenderedIn }\<close> under
  \<^verbatim>\<open>if (DEBUG)\<close>, the number \<^verbatim>\<open>this.transactionId\<close> otherwise.
\<close>

datatype entry =
    Rendered reference "string option"
  | TransactionId nat

text \<open>
  The fields of the class. \<^verbatim>\<open>transactionId\<close> is a counter that starts at 0 and only
  ever grows by \<^verbatim>\<open>++\<close>, which is exact on a JavaScript number below \<open>2^53\<close>; it is a
  natural number here. The WeakMap maps an object to its own key table (an
  \<^verbatim>\<open>Object.create(null)\<close>, reachable only through the WeakMap).
\<close>

record TransactionRunner =
  transactionId :: nat
  inTransaction :: bool
  shouldReflush :: bool
  weakMap :: "obj \<rightharpoonup> (key \<rightharpoonup> entry)"
  debugStack :: "DebugStack option"

text \<open>
  The two things the class takes from outside: \<^verbatim>\<open>assert(desc, test)\<close> of
  \<^verbatim>\<open>@ember/debug\<close> (\<open>None\<close> when the call returns, \<open>Some e\<close> when it throws \<open>e\<close>: the
  facility decides), and the conversion of an object to a string inside a template
  literal, which returns the string or throws (an object made by
  \<^verbatim>\<open>Object.create(null)\<close> has no conversion, a \<^verbatim>\<open>toString\<close> of the caller's may throw).
  \<^verbatim>\<open>peek()\<close> is taken at its type \<^verbatim>\<open>string | void\<close>.
\<close>

record collaborators =
  assert :: "string \<Rightarrow> bool \<Rightarrow> error option"
  toString :: "obj \<Rightarrow> error + string"

subsection \<open>The methods of TransactionRunner\<close>

text \<open>
  Every method takes the value of the build constant \<^verbatim>\<open>DEBUG\<close> it tests, and
  \<open>this\<close> last.
\<close>

definition new_TransactionRunner :: "bool \<Rightarrow> TransactionRunner" where
  "new_TransactionRunner DEBUG =
     \<lparr>transactionId = 0, inTransaction = False, shouldReflush = False,
      weakMap = Map.empty, debugStack = None\<rparr>"

definition createMap :: "obj \<Rightarrow> TransactionRunner \<Rightarrow> (key \<rightharpoonup> entry) \<times> TransactionRunner" where
  "createMap object this =
     (let map' = Map.empty
      in (map', this\<lparr>weakMap := (weakMap this)(object \<mapsto> map')\<rparr>))"

definition getOrCreateMap :: "obj \<Rightarrow> TransactionRunner \<Rightarrow> (key \<rightharpoonup> entry) \<times> TransactionRunner" where
  "getOrCreateMap object this =
     (case weakMap this object of
        None \<Rightarrow> createMap object this
      | Some map' \<Rightarrow> (map', this))"

text \<open>
  \<^verbatim>\<open>map[key] = value\<close> writes into the table the WeakMap holds for the object.
\<close>

definition setKey :: "obj \<Rightarrow> key \<Rightarrow> entry \<Rightarrow> TransactionRunner \<Rightarrow> TransactionRunner" where
  "setKey object key v this =
     (case getOrCreateMap object this of
        (map', this') \<Rightarrow> this'\<lparr>weakMap := (weakMap this')(object \<mapsto> map'(key \<mapsto> v))\<rparr>)"

definition getKey :: "obj \<Rightarrow> key \<Rightarrow> TransactionRunner \<Rightarrow> entry option" where
  "getKey object key this =
     (case weakMap this object of
        Some map' \<Rightarrow> map' key
      | None \<Rightarrow> None)"

definition clearObjectMap :: "TransactionRunner \<Rightarrow> TransactionRunner" where
  "clearObjectMap this = this\<lparr>weakMap := Map.empty\<rparr>"

definition hasRendered :: "bool \<Rightarrow> obj \<Rightarrow> key \<Rightarrow> TransactionRunner \<Rightarrow> bool" where
  "hasRendered DEBUG object key this =
     (if \<not> inTransaction this then False
      else if DEBUG then getKey object key this \<noteq> None
      else getKey object key this = Some (TransactionId (transactionId this)))"

text \<open>
  \<^verbatim>\<open>this.debugStack!.peek()\<close> is evaluated before \<^verbatim>\<open>setKey\<close> is called: with no stack
  it throws and nothing is stored.
\<close>

definition didRender ::
  "bool \<Rightarrow> obj \<Rightarrow> key \<Rightarrow> reference \<Rightarrow> TransactionRunner \<Rightarrow> error option \<times> TransactionRunner" where
  "didRender DEBUG object key reference this =
     (if \<not> inTransaction this then (None, this)
      else if DEBUG then
        (case debugStack this of
           None \<Rightarrow> (Some (TypeError ''Cannot read properties of undefined (reading peek)''), this)
         | Some stack \<Rightarrow> (None, setKey object key (Rendered reference (peek stack)) this))
      else (None, setKey object key (TransactionId (transactionId this)) this))"

text \<open>
  \<^verbatim>\<open>let { lastRef, lastRenderedIn } = this.getKey(object, key)\<close>: destructuring
  \<^verbatim>\<open>undefined\<close> throws, a number has neither property.
\<close>

fun destructure :: "entry option \<Rightarrow> error + (reference \<times> string option)" where
  "destructure None = Inl (TypeError ''Cannot destructure undefined'')"
| "destructure (Some (Rendered lastRef lastRenderedIn)) = Inr (lastRef, lastRenderedIn)"
| "destructure (Some (TransactionId n)) = Inr (Falsy, None)"

text \<open>A \<^verbatim>\<open>string | void\<close> inside a template literal.\<close>

fun template :: "string option \<Rightarrow> string" where
  "template None = ''undefined''"
| "template (Some s) = s"

text \<open>
  The label: \<^verbatim>\<open>lastRef.debug()\<close> is called when there is such a function, and a throw
  of it leaves no label.
\<close>

definition label :: "reference \<Rightarrow> string option \<Rightarrow> error + string" where
  "label lastRef lastRenderedIn =
     (case debug lastRef of
        Some (Inl e) \<Rightarrow> Inl e
      | Some (Inr d) \<Rightarrow> Inr (''as `'' @ d @ ''` in '' @ template lastRenderedIn)
      | None \<Rightarrow> Inr (''in '' @ template lastRenderedIn))"

definition message :: "string \<Rightarrow> string \<Rightarrow> string option \<Rightarrow> string" where
  "message object lbl currentlyIn =
     ''You modified `'' @ object @ ''` twice in a single render. It was first rendered '' @ lbl
     @ '' and then modified later in '' @ template currentlyIn
     @ ''. This was unreliable and slow in Ember 1.x and is no longer supported. ''
     @ ''See https://github.com/emberjs/ember.js/issues/13948 for more details.''"

text \<open>
  The body of the \<^verbatim>\<open>if (DEBUG)\<close> block of \<^verbatim>\<open>assertNotRendered\<close> (lines 86 to 100), in
  its order of evaluation: the record is destructured, the stack is peeked, the label is
  built (with the call of \<^verbatim>\<open>debug()\<close>), the message is built (with the conversion of the
  object to a string), and \<^verbatim>\<open>assert(message, false)\<close> is called. The result is the value
  thrown, if any step throws.
\<close>

definition diagnostic ::
  "collaborators \<Rightarrow> obj \<Rightarrow> entry option \<Rightarrow> DebugStack option \<Rightarrow> error option" where
  "diagnostic C object stored stack' =
     (case destructure stored of
        Inl e \<Rightarrow> Some e
      | Inr (lastRef, lastRenderedIn) \<Rightarrow>
          (case stack' of
             None \<Rightarrow> Some (TypeError ''Cannot read properties of undefined (reading peek)'')
           | Some stack \<Rightarrow>
               (let currentlyIn = peek stack
                in case label lastRef lastRenderedIn of
                     Inl e \<Rightarrow> Some e
                   | Inr lbl \<Rightarrow>
                       (case toString C object of
                          Inl e \<Rightarrow> Some e
                        | Inr str \<Rightarrow> assert C (message str lbl currentlyIn) False))))"

text \<open>
  \<^verbatim>\<open>this.shouldReflush = true\<close> is the statement after the block: it is reached when the
  block is skipped or has returned.
\<close>

definition assertNotRendered ::
  "bool \<Rightarrow> collaborators \<Rightarrow> obj \<Rightarrow> key \<Rightarrow> TransactionRunner \<Rightarrow> error option \<times> TransactionRunner" where
  "assertNotRendered DEBUG C object key this =
     (if \<not> inTransaction this then (None, this)
      else if hasRendered DEBUG object key this then
        (case (if DEBUG then diagnostic C object (getKey object key this) (debugStack this)
               else None) of
           Some e \<Rightarrow> (Some e, this)
         | None \<Rightarrow> (None, this\<lparr>shouldReflush := True\<rparr>))
      else (None, this))"

text \<open>
  \<^verbatim>\<open>before\<close> sets the two flags first and reads \<^verbatim>\<open>context.env.debugStack\<close> last:
  when \<^verbatim>\<open>env\<close> is missing the read throws with the flags already set.
\<close>

definition before :: "bool \<Rightarrow> DebugContext \<Rightarrow> TransactionRunner \<Rightarrow> error option \<times> TransactionRunner" where
  "before DEBUG ctx this =
     (let this1 = this\<lparr>inTransaction := True, shouldReflush := False\<rparr>
      in if DEBUG then
           (case env ctx of
              None \<Rightarrow> (Some (TypeError ''Cannot read properties of undefined (reading debugStack)''), this1)
            | Some e \<Rightarrow> (None, this1\<lparr>debugStack := env_debugStack e\<rparr>))
         else (None, this1))"

definition after :: "bool \<Rightarrow> TransactionRunner \<Rightarrow> TransactionRunner" where
  "after DEBUG this =
     (let this1 = this\<lparr>transactionId := transactionId this + 1, inTransaction := False\<rparr>;
          this2 = (if DEBUG then this1\<lparr>debugStack := None\<rparr> else this1)
      in clearObjectMap this2)"

text \<open>
  The wrapped operation \<^verbatim>\<open>context[methodName]\<close>: it runs on the runner's state (through
  the calls it makes into the module) and either returns or throws.
\<close>

type_synonym operation = "TransactionRunner \<Rightarrow> error option \<times> TransactionRunner"

text \<open>
  \<^verbatim>\<open>before\<close> is called outside the \<^verbatim>\<open>try\<close>; the \<^verbatim>\<open>finally\<close> block runs \<^verbatim>\<open>after\<close> on
  both exits of the operation, and a thrown value then goes on to the caller.
\<close>

definition runInTransaction ::
  "bool \<Rightarrow> DebugContext \<Rightarrow> operation \<Rightarrow> TransactionRunner \<Rightarrow> (error + bool) \<times> TransactionRunner" where
  "runInTransaction DEBUG ctx operation this =
     (case before DEBUG ctx this of
        (Some e, this1) \<Rightarrow> (Inl e, this1)
      | (None, this1) \<Rightarrow>
          (case operation this1 of
             (Some e, this2) \<Rightarrow> (Inl e, after DEBUG this2)
           | (None, this2) \<Rightarrow>
               (let this3 = after DEBUG this2 in (Inr (shouldReflush this3), this3))))"

subsection \<open>Operations made of calls into the runner\<close>

text \<open>
  What an operation does to the runner is the sequence of method calls it makes; a call
  that throws ends the operation.
\<close>

datatype call =
    DidRender obj key reference
  | AssertNotRendered obj key
  | HasRendered obj key

fun step :: "bool \<Rightarrow> collaborators \<Rightarrow> call \<Rightarrow> operation" where
  "step DEBUG C (DidRender object key reference) this = didRender DEBUG object key reference this"
| "step DEBUG C (AssertNotRendered object key) this = assertNotRendered DEBUG C object key this"
| "step DEBUG C (HasRendered object key) this =
     (let answer = hasRendered DEBUG object key this in (None, this))"

fun perform :: "bool \<Rightarrow> collaborators \<Rightarrow> call list \<Rightarrow> operation" where
  "perform DEBUG C [] this = (None, this)"
| "perform DEBUG C (c # cs) this =
     (case step DEBUG C c this of
        (Some e, this') \<Rightarrow> (Some e, this')
      | (None, this') \<Rightarrow> perform DEBUG C cs this')"

subsection \<open>The module\<close>

text \<open>
  The top-level \<^verbatim>\<open>if (DEBUG)\<close> declares the class, creates the one runner and assigns
  the three exported bindings to its methods. The \<^verbatim>\<open>else\<close> branch assigns
  \<^verbatim>\<open>runInTransaction\<close> alone: there is no runner, and \<^verbatim>\<open>didRender\<close> and
  \<^verbatim>\<open>assertNotRendered\<close> stay unassigned, so that calling them is a TypeError.
\<close>

datatype module = DebugModule TransactionRunner | ReleaseModule

definition load :: "bool \<Rightarrow> module" where
  "load DEBUG = (if DEBUG then DebugModule (new_TransactionRunner DEBUG) else ReleaseModule)"

text \<open>
  The \<^verbatim>\<open>else\<close> branch: \<^verbatim>\<open>(context[methodName])(); return false\<close>. The operation acts
  on whatever state \<open>'w\<close> the program has.
\<close>

definition runInTransaction_release ::
  "'c \<Rightarrow> ('w \<Rightarrow> error option \<times> 'w) \<Rightarrow> 'w \<Rightarrow> (error + bool) \<times> 'w" where
  "runInTransaction_release ctx operation w =
     (case operation w of
        (Some e, w') \<Rightarrow> (Inl e, w')
      | (None, w') \<Rightarrow> (Inr False, w'))"

text \<open>
  An operation sees the module; inside \<^verbatim>\<open>runner.runInTransaction\<close> it runs on the
  module's runner.
\<close>

definition on_runner :: "(module \<Rightarrow> error option \<times> module) \<Rightarrow> operation" where
  "on_runner operation this =
     (case operation (DebugModule this) of
        (e, DebugModule this') \<Rightarrow> (e, this')
      | (e, ReleaseModule) \<Rightarrow> (e, this))"

fun runInTransaction_export ::
  "DebugContext \<Rightarrow> (module \<Rightarrow> error option \<times> module) \<Rightarrow> module \<Rightarrow> (error + bool) \<times> module" where
  "runInTransaction_export ctx operation (DebugModule runner) =
     (case runInTransaction True ctx (on_runner operation) runner of
        (result, runner') \<Rightarrow> (result, DebugModule runner'))"
| "runInTransaction_export ctx operation ReleaseModule =
     runInTransaction_release ctx operation ReleaseModule"

fun didRender_export ::
  "obj \<Rightarrow> key \<Rightarrow> reference \<Rightarrow> module \<Rightarrow> error option \<times> module" where
  "didRender_export object key reference (DebugModule runner) =
     (case didRender True object key reference runner of
        (e, runner') \<Rightarrow> (e, DebugModule runner'))"
| "didRender_export object key reference ReleaseModule =
     (Some (TypeError ''didRender is not a function''), ReleaseModule)"

fun assertNotRendered_export ::
  "collaborators \<Rightarrow> obj \<Rightarrow> key \<Rightarrow> module \<Rightarrow> error option \<times> module" where
  "assertNotRendered_export C object key (DebugModule runner) =
     (case assertNotRendered True C object key runner of
        (e, runner') \<Rightarrow> (e, DebugModule runner'))"
| "assertNotRendered_export C object key ReleaseModule =
     (Some (TypeError ''assertNotRendered is not a function''), ReleaseModule)"

text \<open>Two statements in a row: the second runs when the first returns.\<close>

definition seq ::
  "('s \<Rightarrow> error option \<times> 's) \<Rightarrow> ('s \<Rightarrow> error option \<times> 's) \<Rightarrow> 's \<Rightarrow> error option \<times> 's" where
  "seq f g s =
     (case f s of
        (Some e, s') \<Rightarrow> (Some e, s')
      | (None, s') \<Rightarrow> g s')"

text \<open>The reflush flag of the module, where there is one.\<close>

fun reflush_flag :: "module \<Rightarrow> bool option" where
  "reflush_flag (DebugModule runner) = Some (shouldReflush runner)"
| "reflush_flag ReleaseModule = None"

subsection \<open>Collaborators and contexts used as examples\<close>

text \<open>
  An assertion facility that reports a failed assertion and returns, and one that throws
  on a false condition, both with plain objects; and the first one with objects that have
  no conversion to a string.
\<close>

definition logging :: collaborators where
  "logging =
     \<lparr>assert = (\<lambda>desc test. None), toString = (\<lambda>object. Inr ''[object Object]'')\<rparr>"

definition throwing :: collaborators where
  "throwing =
     \<lparr>assert = (\<lambda>desc test. if test then None else Some (Thrown (''Assertion Failed: '' @ desc))),
      toString = (\<lambda>object. Inr ''[object Object]'')\<rparr>"

definition null_prototype :: collaborators where
  "null_prototype =
     \<lparr>assert = (\<lambda>desc test. None),
      toString = (\<lambda>object. Inl (TypeError ''Cannot convert object to primitive value''))\<rparr>"

definition context_with :: "DebugStack \<Rightarrow> DebugContext" where
  "context_with stack = DebugContext (Some (Env (Some stack)))"

text \<open>An operation run beside a counter of its invocations.\<close>

definition counted :: "('w \<Rightarrow> error option \<times> 'w) \<Rightarrow> nat \<times> 'w \<Rightarrow> error option \<times> (nat \<times> 'w)" where
  "counted operation s =
     (case s of
        (n, w) \<Rightarrow> (case operation w of (e, w') \<Rightarrow> (e, (Suc n, w'))))"

text \<open>An operation that makes some calls and then throws.\<close>

definition then_throw :: "operation \<Rightarrow> error \<Rightarrow> operation" where
  "then_throw operation x = seq operation (\<lambda>this. (Some x, this))"

section \<open>Properties\<close>

text \<open>The equations that evaluate the methods on given arguments.\<close>

lemmas runner_defs =
  new_TransactionRunner_def createMap_def getOrCreateMap_def setKey_def getKey_def
  clearObjectMap_def hasRendered_def didRender_def label_def message_def diagnostic_def
  assertNotRendered_def before_def after_def runInTransaction_def Let_def

subsection \<open>The record table\<close>

lemma setKey_fields:
  "transactionId (setKey object key v this) = transactionId this"
  "inTransaction (setKey object key v this) = inTransaction this"
  "shouldReflush (setKey object key v this) = shouldReflush this"
  "debugStack (setKey object key v this) = debugStack this"
  by (simp_all add: setKey_def getOrCreateMap_def createMap_def Let_def split: option.split)

lemma getKey_setKey:
  "getKey object' key' (setKey object key v this) =
     (if object' = object \<and> key' = key then Some v else getKey object' key' this)"
  by (simp add: getKey_def setKey_def getOrCreateMap_def createMap_def Let_def split: option.split)

subsection \<open>Outside a transaction\<close>

text \<open>
  C6. With no transaction active, \<^verbatim>\<open>didRender\<close> and \<^verbatim>\<open>assertNotRendered\<close> return without
  throwing and leave the whole runner as it was (so the reflush flag is not set), and
  \<^verbatim>\<open>hasRendered\<close> answers false.
\<close>

theorem no_transaction_no_tracking:
  "\<not> inTransaction this \<Longrightarrow>
     didRender DEBUG object key reference this = (None, this)
     \<and> assertNotRendered DEBUG C object key this = (None, this)
     \<and> hasRendered DEBUG object key this = False"
  by (simp add: didRender_def assertNotRendered_def hasRendered_def)

theorem no_transaction_no_tracking_witness:
  "\<not> inTransaction (new_TransactionRunner True)
   \<and> didRender True 5 ''x'' Opaque (new_TransactionRunner True) = (None, new_TransactionRunner True)
   \<and> assertNotRendered True throwing 5 ''x'' (new_TransactionRunner True)
       = (None, new_TransactionRunner True)
   \<and> hasRendered True 5 ''x'' (new_TransactionRunner True) = False"
proof -
  have idle: "\<not> inTransaction (new_TransactionRunner True)"
    by (simp add: new_TransactionRunner_def)
  show ?thesis
    using idle no_transaction_no_tracking [OF idle, of True 5 "''x''" Opaque throwing]
    by simp
qed

subsection \<open>What one call does to the runner\<close>

lemma didRender_returns:
  "didRender DEBUG object key reference this = (e, this') \<Longrightarrow>
     transactionId this' = transactionId this \<and> inTransaction this' = inTransaction this
     \<and> shouldReflush this' = shouldReflush this \<and> debugStack this' = debugStack this"
  by (auto simp add: didRender_def setKey_fields split: if_splits option.splits)

lemma assertNotRendered_cases:
  "assertNotRendered DEBUG C object key this = (None, this)
   \<or> assertNotRendered DEBUG C object key this = (None, this\<lparr>shouldReflush := True\<rparr>)
   \<or> (\<exists>e. assertNotRendered DEBUG C object key this = (Some e, this))"
  by (simp add: assertNotRendered_def split: option.split)

lemma assertNotRendered_returns:
  "assertNotRendered DEBUG C object key this = (e, this') \<Longrightarrow>
     transactionId this' = transactionId this \<and> inTransaction this' = inTransaction this
     \<and> (shouldReflush this \<longrightarrow> shouldReflush this') \<and> debugStack this' = debugStack this
     \<and> weakMap this' = weakMap this"
  using assertNotRendered_cases [of DEBUG C object key this] by auto

lemma step_returns:
  "step DEBUG C c this = (e, this') \<Longrightarrow>
     transactionId this' = transactionId this \<and> inTransaction this' = inTransaction this
     \<and> (shouldReflush this \<longrightarrow> shouldReflush this') \<and> debugStack this' = debugStack this"
proof (cases c)
  case (DidRender object key reference)
  assume "step DEBUG C c this = (e, this')"
  with DidRender show ?thesis
    using didRender_returns [of DEBUG object key reference this e this'] by simp
next
  case (AssertNotRendered object key)
  assume "step DEBUG C c this = (e, this')"
  with AssertNotRendered show ?thesis
    using assertNotRendered_returns [of DEBUG C object key this e this'] by simp
next
  case (HasRendered object key)
  assume "step DEBUG C c this = (e, this')"
  with HasRendered show ?thesis by simp
qed

lemma perform_returns:
  "perform DEBUG C calls this = (e, this') \<Longrightarrow>
     transactionId this' = transactionId this \<and> inTransaction this' = inTransaction this
     \<and> (shouldReflush this \<longrightarrow> shouldReflush this') \<and> debugStack this' = debugStack this"
proof (induction calls arbitrary: this)
  case Nil
  then show ?case by simp
next
  case (Cons c calls)
  obtain e1 this1 where s: "step DEBUG C c this = (e1, this1)"
    by (cases "step DEBUG C c this")
  note one = step_returns [OF s]
  show ?case
  proof (cases e1)
    case None
    with s Cons.prems have "perform DEBUG C calls this1 = (e, this')" by simp
    from Cons.IH [OF this] one show ?thesis by simp
  next
    case (Some x)
    with s Cons.prems have "this' = this1" by simp
    with one show ?thesis by simp
  qed
qed

lemma before_fields:
  "inTransaction (snd (before DEBUG ctx this))"
  "\<not> shouldReflush (snd (before DEBUG ctx this))"
  "weakMap (snd (before DEBUG ctx this)) = weakMap this"
  "transactionId (snd (before DEBUG ctx this)) = transactionId this"
  by (simp_all add: before_def Let_def split: option.split)

lemma before_returns:
  "before True (DebugContext (Some (Env d))) this =
     (None, this\<lparr>inTransaction := True, shouldReflush := False, debugStack := d\<rparr>)"
  "before False ctx this = (None, this\<lparr>inTransaction := True, shouldReflush := False\<rparr>)"
  by (simp_all add: before_def Let_def)

lemma after_eq:
  "after DEBUG this =
     this\<lparr>transactionId := transactionId this + 1, inTransaction := False,
          debugStack := (if DEBUG then None else debugStack this), weakMap := Map.empty\<rparr>"
  by (simp add: after_def clearObjectMap_def Let_def)

lemma perform_append:
  "perform DEBUG C (xs @ ys) this = seq (perform DEBUG C xs) (perform DEBUG C ys) this"
proof (induction xs arbitrary: this)
  case Nil
  show ?case by (simp add: seq_def)
next
  case (Cons c xs)
  show ?case
  proof (cases "step DEBUG C c this")
    case (Pair e this1)
    with Cons.IH [of this1] show ?thesis
      by (cases e) (simp_all add: seq_def)
  qed
qed

text \<open>A pair that counts as rendered still does after any further call.\<close>

lemma hasRendered_shouldReflush_update:
  "hasRendered DEBUG object key (this\<lparr>shouldReflush := b\<rparr>) = hasRendered DEBUG object key this"
  by (simp add: hasRendered_def getKey_def)

lemma didRender_records:
  "inTransaction this \<Longrightarrow> fst (didRender DEBUG object key reference this) = None \<Longrightarrow>
     hasRendered DEBUG object key (snd (didRender DEBUG object key reference this))"
  by (auto simp add: didRender_def hasRendered_def setKey_fields getKey_setKey
      split: if_splits option.splits)

lemma didRender_keeps:
  "hasRendered DEBUG object key this \<Longrightarrow>
     hasRendered DEBUG object key (snd (didRender DEBUG object' key' reference this))"
  by (auto simp add: didRender_def hasRendered_def setKey_fields getKey_setKey
      split: if_splits option.splits)

lemma assertNotRendered_keeps:
  "hasRendered DEBUG object key this \<Longrightarrow>
     hasRendered DEBUG object key (snd (assertNotRendered DEBUG C object' key' this))"
  using assertNotRendered_cases [of DEBUG C object' key' this]
  by (auto simp add: hasRendered_shouldReflush_update)

lemma step_keeps:
  "hasRendered DEBUG object key this \<Longrightarrow> hasRendered DEBUG object key (snd (step DEBUG C c this))"
  by (cases c) (simp_all add: didRender_keeps assertNotRendered_keeps)

lemma perform_keeps:
  "hasRendered DEBUG object key this \<Longrightarrow>
     hasRendered DEBUG object key (snd (perform DEBUG C calls this))"
proof (induction calls arbitrary: this)
  case Nil
  then show ?case by simp
next
  case (Cons c calls)
  from Cons.prems have one: "hasRendered DEBUG object key (snd (step DEBUG C c this))"
    by (rule step_keeps)
  show ?case
  proof (cases "step DEBUG C c this")
    case (Pair e this1)
    with one Cons.IH [of this1] show ?thesis
      by (cases e) simp_all
  qed
qed

text \<open>
  What \<^verbatim>\<open>assertNotRendered\<close> does on a pair that counts as rendered: it sets the flag
  when the diagnostic block is skipped or returns, and throws what the block throws.
\<close>

lemma assertNotRendered_rendered:
  assumes "hasRendered DEBUG object key this"
  shows "assertNotRendered DEBUG C object key this =
           (case (if DEBUG then diagnostic C object (getKey object key this) (debugStack this)
                  else None) of
              None \<Rightarrow> (None, this\<lparr>shouldReflush := True\<rparr>)
            | Some e \<Rightarrow> (Some e, this))"
proof -
  from assms have "inTransaction this"
    by (simp add: hasRendered_def split: if_splits)
  with assms show ?thesis
    by (simp add: assertNotRendered_def split: option.split)
qed

lemma hazard_returns_flagged:
  assumes "hasRendered DEBUG object key this"
    and "assertNotRendered DEBUG C object key this = (None, this')"
  shows "shouldReflush this'"
  using assms(2) unfolding assertNotRendered_rendered [OF assms(1)]
  by (auto split: option.splits)

text \<open>An operation that returns has returned from each of its parts.\<close>

lemma perform_Cons_returns:
  assumes "perform DEBUG C (c # cs) this = (None, this')"
  obtains m where "step DEBUG C c this = (None, m)" and "perform DEBUG C cs m = (None, this')"
proof (cases "step DEBUG C c this")
  case (Pair e m)
  with assms have "e = None" by (cases e) simp_all
  with Pair assms that show thesis by simp
qed

lemma perform_append_returns:
  assumes "perform DEBUG C (xs @ ys) this = (None, this')"
  obtains m where "perform DEBUG C xs this = (None, m)" and "perform DEBUG C ys m = (None, this')"
proof (cases "perform DEBUG C xs this")
  case (Pair e m)
  with assms have "e = None"
    by (cases e) (simp_all add: perform_append seq_def)
  with Pair assms that show thesis
    by (simp add: perform_append seq_def)
qed

text \<open>
  Inside a transaction, an operation that marks a pair, later asserts on it and returns
  leaves the flag set.
\<close>

lemma hazard_flagged:
  assumes active: "inTransaction this"
    and returns: "perform True C
        (pre @ DidRender object key reference # mid @ AssertNotRendered object key # post) this
      = (None, this')"
  shows "shouldReflush this'"
proof -
  from returns obtain this2 where
    p2: "perform True C pre this = (None, this2)" and
    r2: "perform True C (DidRender object key reference # mid @ AssertNotRendered object key # post)
           this2 = (None, this')"
    by (rule perform_append_returns)
  from r2 obtain this3 where
    d: "step True C (DidRender object key reference) this2 = (None, this3)" and
    r3: "perform True C (mid @ AssertNotRendered object key # post) this3 = (None, this')"
    by (rule perform_Cons_returns)
  from r3 obtain this4 where
    p4: "perform True C mid this3 = (None, this4)" and
    r4: "perform True C (AssertNotRendered object key # post) this4 = (None, this')"
    by (rule perform_append_returns)
  from r4 obtain this5 where
    a: "step True C (AssertNotRendered object key) this4 = (None, this5)" and
    p5: "perform True C post this5 = (None, this')"
    by (rule perform_Cons_returns)
  from perform_returns [OF p2] active have t2: "inTransaction this2" by simp
  from didRender_records [OF t2, of True object key reference] d
  have h3: "hasRendered True object key this3" by simp
  from perform_keeps [OF h3, of C mid] p4 have h4: "hasRendered True object key this4"
    by simp
  from a have "assertNotRendered True C object key this4 = (None, this5)" by simp
  from hazard_returns_flagged [OF h4 this] have "shouldReflush this5" .
  with perform_returns [OF p5] show ?thesis by simp
qed

subsection \<open>The reflush flag inside a transaction\<close>

text \<open>
  C8. Once \<^verbatim>\<open>shouldReflush\<close> is true, no sequence of \<^verbatim>\<open>didRender\<close>, \<^verbatim>\<open>assertNotRendered\<close>
  and \<^verbatim>\<open>hasRendered\<close> calls makes it false again, whether the sequence runs to its end
  or is cut short by a throw; \<^verbatim>\<open>after\<close> keeps it too. It is \<^verbatim>\<open>before\<close>, at the start of
  the next transaction, that sets it to false.
\<close>

theorem shouldReflush_monotone:
  "shouldReflush this \<Longrightarrow>
     shouldReflush (snd (perform DEBUG C calls this))
     \<and> shouldReflush (after DEBUG (snd (perform DEBUG C calls this)))
     \<and> shouldReflush (snd (before DEBUG ctx (after DEBUG (snd (perform DEBUG C calls this))))) = False"
  using perform_returns [of DEBUG C calls this "fst (perform DEBUG C calls this)"
      "snd (perform DEBUG C calls this)"]
  by (simp add: after_eq before_fields)

theorem shouldReflush_monotone_witness:
  "shouldReflush
     \<lparr>transactionId = 3, inTransaction = True, shouldReflush = True, weakMap = Map.empty,
      debugStack = Some (DebugStack (Some ''application''))\<rparr>
   \<and> shouldReflush (snd (perform True throwing
         [DidRender 5 ''x'' Opaque, HasRendered 5 ''x'', AssertNotRendered 5 ''x'']
         \<lparr>transactionId = 3, inTransaction = True, shouldReflush = True, weakMap = Map.empty,
          debugStack = Some (DebugStack (Some ''application''))\<rparr>))"
proof -
  let ?start = "\<lparr>transactionId = 3, inTransaction = True, shouldReflush = True,
      weakMap = Map.empty, debugStack = Some (DebugStack (Some ''application''))\<rparr>"
  have set: "shouldReflush ?start" by simp
  from shouldReflush_monotone [OF set, of True throwing
      "[DidRender 5 ''x'' Opaque, HasRendered 5 ''x'', AssertNotRendered 5 ''x'']"
      "DebugContext None"]
  show ?thesis using set by blast
qed

subsection \<open>Hazards inside one transaction\<close>

text \<open>
  C1, as stated: in a debug build, \<^verbatim>\<open>didRender(object, key, reference)\<close> followed by
  \<^verbatim>\<open>assertNotRendered(object, key)\<close> inside one transaction makes \<^verbatim>\<open>runInTransaction\<close>
  return true, for every object, key and reference. The diagnostic block stands before
  \<^verbatim>\<open>this.shouldReflush = true\<close>: with an assertion facility that throws on a false
  condition, with an object that has no conversion to a string, or with a reference whose
  \<^verbatim>\<open>debug()\<close> throws, the transaction throws and returns nothing.
\<close>

theorem basic_hazard_diagnostic_throws:
  "fst (runInTransaction True (context_with (DebugStack (Some ''application'')))
          (perform True throwing [DidRender 5 ''x'' Opaque, AssertNotRendered 5 ''x''])
          (new_TransactionRunner True))
     = Inl (Thrown (''Assertion Failed: '' @
         message ''[object Object]'' ''in application'' (Some ''application'')))
   \<and> fst (runInTransaction True (context_with (DebugStack (Some ''application'')))
          (perform True null_prototype [DidRender 5 ''x'' Opaque, AssertNotRendered 5 ''x''])
          (new_TransactionRunner True))
     = Inl (TypeError ''Cannot convert object to primitive value'')
   \<and> fst (runInTransaction True (context_with (DebugStack (Some ''application'')))
          (perform True logging
             [DidRender 5 ''x'' (Faulty (Thrown ''debug'')), AssertNotRendered 5 ''x''])
          (new_TransactionRunner True))
     = Inl (Thrown ''debug'')"
  by (simp add: runner_defs context_with_def throwing_def null_prototype_def logging_def)

text \<open>
  C1, amended. In a debug build, on a context that has its debug stack, take an operation
  that calls \<^verbatim>\<open>didRender(object, key, reference)\<close> and later
  \<^verbatim>\<open>assertNotRendered(object, key)\<close>, with any other calls before, between and after.
  \<^verbatim>\<open>runInTransaction\<close> returns true when no call of the operation throws, and throws what
  the first failing call throws otherwise; it never returns false. For the two calls
  alone, it returns true exactly when the diagnostic block returns, that is when
  \<^verbatim>\<open>reference.debug()\<close> (if there is one), the conversion of the object to a string and
  \<^verbatim>\<open>assert(message, false)\<close> all return.
\<close>

theorem basic_hazard:
  "fst (runInTransaction True (context_with stack)
          (perform True C
             (pre @ DidRender object key reference # mid @ AssertNotRendered object key # post))
          this)
     = (case fst (perform True C
                   (pre @ DidRender object key reference # mid @ AssertNotRendered object key # post)
                   (this\<lparr>inTransaction := True, shouldReflush := False,
                         debugStack := Some stack\<rparr>)) of
          None \<Rightarrow> Inr True
        | Some e \<Rightarrow> Inl e)
   \<and> fst (runInTransaction True (context_with stack)
          (perform True C [DidRender object key reference, AssertNotRendered object key])
          this)
     = (case diagnostic C object (Some (Rendered reference (peek stack))) (Some stack) of
          None \<Rightarrow> Inr True
        | Some e \<Rightarrow> Inl e)
   \<and> (diagnostic C object (Some (Rendered reference (peek stack))) (Some stack) = None)
     = (\<exists>lbl str. label reference (peek stack) = Inr lbl \<and> toString C object = Inr str
          \<and> assert C (message str lbl (peek stack)) False = None)"
proof -
  let ?started = "this\<lparr>inTransaction := True, shouldReflush := False, debugStack := Some stack\<rparr>"
  let ?calls = "pre @ DidRender object key reference # mid @ AssertNotRendered object key # post"
  have b: "before True (context_with stack) this = (None, ?started)"
    by (simp add: context_with_def before_returns)
  have general: "fst (runInTransaction True (context_with stack) (perform True C ?calls) this)
      = (case fst (perform True C ?calls ?started) of None \<Rightarrow> Inr True | Some e \<Rightarrow> Inl e)"
  proof (cases "perform True C ?calls ?started")
    case (Pair e this')
    show ?thesis
    proof (cases e)
      case None
      with Pair have returns: "perform True C ?calls ?started = (None, this')" by simp
      have "inTransaction ?started" by simp
      from hazard_flagged [OF this returns] have "shouldReflush this'" .
      with returns show ?thesis
        by (simp add: runInTransaction_def b after_eq)
    next
      case (Some x)
      with Pair show ?thesis
        by (simp add: runInTransaction_def b)
    qed
  qed
  have two: "fst (runInTransaction True (context_with stack)
          (perform True C [DidRender object key reference, AssertNotRendered object key]) this)
      = (case diagnostic C object (Some (Rendered reference (peek stack))) (Some stack) of
           None \<Rightarrow> Inr True | Some e \<Rightarrow> Inl e)"
    by (simp add: runInTransaction_def b didRender_def assertNotRendered_def hasRendered_def
        getKey_setKey setKey_fields after_eq split: option.split)
  have block: "(diagnostic C object (Some (Rendered reference (peek stack))) (Some stack) = None)
      = (\<exists>lbl str. label reference (peek stack) = Inr lbl \<and> toString C object = Inr str
           \<and> assert C (message str lbl (peek stack)) False = None)"
    by (auto simp add: diagnostic_def split: sum.splits)
  from general two block show ?thesis by blast
qed

theorem basic_hazard_witness:
  "fst (runInTransaction True (context_with (DebugStack (Some ''application'')))
          (perform True logging
             [DidRender 5 ''x'' (Describable ''title''), DidRender 6 ''y'' Falsy,
              AssertNotRendered 5 ''x''])
          (new_TransactionRunner True)) = Inr True"
proof -
  have returns: "fst (perform True logging
      [DidRender 5 ''x'' (Describable ''title''), DidRender 6 ''y'' Falsy,
       AssertNotRendered 5 ''x'']
      ((new_TransactionRunner True)\<lparr>inTransaction := True, shouldReflush := False,
         debugStack := Some (DebugStack (Some ''application''))\<rparr>)) = None"
    by (simp add: runner_defs logging_def)
  from basic_hazard [of "DebugStack (Some ''application'')" logging "[]" 5 "''x''"
      "Describable ''title''" "[DidRender 6 ''y'' Falsy]" "[]" "new_TransactionRunner True"]
  have "fst (runInTransaction True (context_with (DebugStack (Some ''application'')))
          (perform True logging
             ([] @ DidRender 5 ''x'' (Describable ''title'') # [DidRender 6 ''y'' Falsy]
               @ AssertNotRendered 5 ''x'' # []))
          (new_TransactionRunner True))
      = (case fst (perform True logging
             ([] @ DidRender 5 ''x'' (Describable ''title'') # [DidRender 6 ''y'' Falsy]
               @ AssertNotRendered 5 ''x'' # [])
             ((new_TransactionRunner True)\<lparr>inTransaction := True, shouldReflush := False,
                debugStack := Some (DebugStack (Some ''application''))\<rparr>)) of
           None \<Rightarrow> Inr True | Some e \<Rightarrow> Inl e)"
    by (rule conjunct1)
  then show ?thesis
    unfolding append.simps by (simp only: returns option.case)
qed

text \<open>
  C5. A transaction that starts with an empty record table, marks \<^verbatim>\<open>(object, key)\<close> as
  rendered and then calls \<^verbatim>\<open>assertNotRendered\<close> on any other pair (another key of the
  same object, the same key of another object) never sets the flag and returns false.
  The assertion facility is not called.
\<close>

theorem no_false_positive:
  assumes "weakMap this = Map.empty" and "(object', key') \<noteq> (object, key)"
  shows "runInTransaction DEBUG (context_with stack)
           (perform DEBUG C [DidRender object key reference, AssertNotRendered object' key'])
           this
         = (Inr False,
            this\<lparr>transactionId := transactionId this + 1, inTransaction := False,
                 shouldReflush := False, debugStack := (if DEBUG then None else debugStack this)\<rparr>)"
  using assms by (cases DEBUG) (auto simp add: runner_defs context_with_def)

theorem no_false_positive_witness:
  "fst (runInTransaction True (context_with (DebugStack (Some ''application'')))
          (perform True throwing [DidRender 5 ''x'' Opaque, AssertNotRendered 5 ''y''])
          (new_TransactionRunner True)) = Inr False
   \<and> fst (runInTransaction True (context_with (DebugStack (Some ''application'')))
          (perform True throwing [DidRender 5 ''x'' Opaque, AssertNotRendered 6 ''x''])
          (new_TransactionRunner True)) = Inr False"
proof -
  have fresh: "weakMap (new_TransactionRunner True) = Map.empty"
    by (simp add: new_TransactionRunner_def)
  have other_key: "(5::nat, ''y'') \<noteq> (5, ''x'')" and other_object: "(6::nat, ''x'') \<noteq> (5, ''x'')"
    by simp_all
  from no_false_positive [OF fresh other_key, of True "DebugStack (Some ''application'')"
      throwing Opaque]
    no_false_positive [OF fresh other_object, of True "DebugStack (Some ''application'')"
      throwing Opaque]
  show ?thesis by simp
qed

text \<open>
  C9. Inside a transaction, \<^verbatim>\<open>didRender\<close> twice for one pair leaves exactly what the
  second call alone leaves: the record of the second call replaces the first, and the
  flag is as it was. A transaction whose operation is those two calls returns false.
\<close>

theorem rerender_marking:
  assumes "inTransaction this" and "debugStack this = Some stack"
  shows "perform DEBUG C [DidRender object key r1, DidRender object key r2] this
           = didRender DEBUG object key r2 this
    \<and> getKey object key
          (snd (perform DEBUG C [DidRender object key r1, DidRender object key r2] this))
        = Some (if DEBUG then Rendered r2 (peek stack) else TransactionId (transactionId this))
    \<and> shouldReflush
          (snd (perform DEBUG C [DidRender object key r1, DidRender object key r2] this))
        = shouldReflush this
    \<and> fst (runInTransaction DEBUG (context_with stack')
             (perform DEBUG C [DidRender object key r1, DidRender object key r2]) this')
        = Inr False"
  using assms
  by (cases DEBUG) (auto simp add: runner_defs context_with_def split: option.split)

theorem rerender_marking_witness:
  "fst (runInTransaction True (context_with (DebugStack (Some ''application'')))
          (perform True throwing [DidRender 5 ''x'' Opaque, DidRender 5 ''x'' (Describable ''title'')])
          (new_TransactionRunner True)) = Inr False"
proof -
  let ?start = "\<lparr>transactionId = 0, inTransaction = True, shouldReflush = False,
      weakMap = Map.empty, debugStack = Some (DebugStack (Some ''application''))\<rparr>"
  have active: "inTransaction ?start"
    and stack: "debugStack ?start = Some (DebugStack (Some ''application''))"
    by simp_all
  from rerender_marking [OF active stack, of True throwing 5 "''x''" Opaque
      "Describable ''title''" "DebugStack (Some ''application'')" "new_TransactionRunner True"]
  show ?thesis by simp
qed

subsection \<open>From one transaction to the next\<close>

text \<open>
  C4. Whatever the operation of a transaction did (it may have marked \<^verbatim>\<open>(object, key)\<close>
  as rendered and triggered the hazard, returned or thrown), a following transaction that
  calls \<^verbatim>\<open>assertNotRendered(object, key)\<close> without a \<^verbatim>\<open>didRender\<close> of its own returns
  false: \<^verbatim>\<open>after\<close> left it an empty table. The last conjunct is the case where the
  first transaction marks the pair and then triggers the hazard on it.
\<close>

theorem isolation_across_transactions:
  "weakMap (snd (runInTransaction DEBUG (context_with stack) operation this)) = Map.empty
   \<and> fst (runInTransaction DEBUG (context_with stack')
            (perform DEBUG C [AssertNotRendered object key])
            (snd (runInTransaction DEBUG (context_with stack) operation this)))
       = Inr False
   \<and> fst (runInTransaction DEBUG (context_with stack')
            (perform DEBUG C [AssertNotRendered object key])
            (snd (runInTransaction DEBUG (context_with stack)
                    (perform DEBUG C
                       [DidRender object key reference, AssertNotRendered object key])
                    this)))
       = Inr False"
proof -
  have following: "fst (runInTransaction DEBUG (context_with stack')
            (perform DEBUG C [AssertNotRendered object key])
            (snd (runInTransaction DEBUG (context_with stack) first this))) = Inr False"
    and emptied: "weakMap (snd (runInTransaction DEBUG (context_with stack) first this))
            = Map.empty" for first
  proof -
    let ?next = "snd (runInTransaction DEBUG (context_with stack) first this)"
    show empty: "weakMap ?next = Map.empty"
      by (cases DEBUG)
        (simp_all add: runInTransaction_def context_with_def before_returns after_eq
          split: prod.split option.split)
    then show "fst (runInTransaction DEBUG (context_with stack')
              (perform DEBUG C [AssertNotRendered object key]) ?next) = Inr False"
      by (cases DEBUG)
        (simp_all add: runInTransaction_def context_with_def before_returns after_eq
          assertNotRendered_def hasRendered_def getKey_def)
  qed
  from emptied [of operation] following [of operation]
    following [of "perform DEBUG C [DidRender object key reference, AssertNotRendered object key]"]
  show ?thesis by simp
qed

subsection \<open>Exits of runInTransaction\<close>

text \<open>
  C10. In a debug build, a context without \<^verbatim>\<open>env\<close> makes \<^verbatim>\<open>before\<close> throw on the read of
  \<^verbatim>\<open>context.env.debugStack\<close>. That call stands outside the \<^verbatim>\<open>try\<close>:
  \<^verbatim>\<open>runInTransaction\<close> throws the TypeError whatever the operation is (it is never
  invoked), and \<^verbatim>\<open>after\<close> does not run. The runner keeps \<^verbatim>\<open>inTransaction = true\<close>, its
  record table, its \<^verbatim>\<open>transactionId\<close> and its stack reference.
\<close>

theorem setup_failure_skips_cleanup:
  "runInTransaction True (DebugContext None) operation this =
     (Inl (TypeError ''Cannot read properties of undefined (reading debugStack)''),
      this\<lparr>inTransaction := True, shouldReflush := False\<rparr>)
   \<and> inTransaction (snd (runInTransaction True (DebugContext None) operation this))
   \<and> weakMap (snd (runInTransaction True (DebugContext None) operation this)) = weakMap this
   \<and> transactionId (snd (runInTransaction True (DebugContext None) operation this))
       = transactionId this"
  by (simp add: runInTransaction_def before_def Let_def)

text \<open>
  C3. When \<^verbatim>\<open>before\<close> has returned and the operation throws \<open>x\<close>, \<^verbatim>\<open>runInTransaction\<close>
  throws the same \<open>x\<close>, and the runner it leaves is the one \<^verbatim>\<open>after\<close> makes of the
  state at the throw: not in a transaction, \<^verbatim>\<open>transactionId\<close> one higher, no stack
  reference, an empty record table. The next \<^verbatim>\<open>before\<close> then starts from
  \<^verbatim>\<open>shouldReflush = false\<close> and that empty table.
\<close>

theorem exception_safety:
  assumes "before True ctx this = (None, this1)"
    and "operation this1 = (Some x, this2)"
  shows "runInTransaction True ctx operation this = (Inl x, after True this2)
    \<and> inTransaction (after True this2) = False
    \<and> transactionId (after True this2) = transactionId this2 + 1
    \<and> debugStack (after True this2) = None
    \<and> weakMap (after True this2) = Map.empty
    \<and> shouldReflush (snd (before True ctx' (after True this2))) = False
    \<and> weakMap (snd (before True ctx' (after True this2))) = Map.empty"
  using assms by (simp add: runInTransaction_def after_eq before_fields)

theorem exception_safety_witness:
  "runInTransaction True (context_with (DebugStack (Some ''application'')))
     (then_throw (perform True logging [DidRender 5 ''x'' Opaque, AssertNotRendered 5 ''x''])
        (Thrown ''boom''))
     (new_TransactionRunner True)
   = (Inl (Thrown ''boom''),
      \<lparr>transactionId = 1, inTransaction = False, shouldReflush = True, weakMap = Map.empty,
       debugStack = None\<rparr>)"
proof -
  let ?ctx = "context_with (DebugStack (Some ''application''))"
  let ?operation = "then_throw
      (perform True logging [DidRender 5 ''x'' Opaque, AssertNotRendered 5 ''x''])
      (Thrown ''boom'')"
  let ?this1 = "\<lparr>transactionId = 0, inTransaction = True, shouldReflush = False,
      weakMap = Map.empty, debugStack = Some (DebugStack (Some ''application''))\<rparr>"
  let ?this2 = "\<lparr>transactionId = 0, inTransaction = True, shouldReflush = True,
      weakMap = [5 \<mapsto> [''x'' \<mapsto> Rendered Opaque (Some ''application'')]],
      debugStack = Some (DebugStack (Some ''application''))\<rparr>"
  have b: "before True ?ctx (new_TransactionRunner True) = (None, ?this1)"
    by (simp add: runner_defs context_with_def)
  let ?this1' = "\<lparr>transactionId = 0, inTransaction = True, shouldReflush = False,
      weakMap = [5 \<mapsto> [''x'' \<mapsto> Rendered Opaque (Some ''application'')]],
      debugStack = Some (DebugStack (Some ''application''))\<rparr>"
  have d: "didRender True 5 ''x'' Opaque ?this1 = (None, ?this1')"
    by (simp add: runner_defs)
  have a: "assertNotRendered True logging 5 ''x'' ?this1' = (None, ?this2)"
    by (simp add: runner_defs logging_def)
  have t: "?operation ?this1 = (Some (Thrown ''boom''), ?this2)"
    by (simp add: then_throw_def seq_def d a)
  from exception_safety [where operation = ?operation and ctx' = ?ctx, OF b t] show ?thesis
    by (simp add: after_eq)
qed

text \<open>
  With an operation made of calls into the runner, the \<^verbatim>\<open>transactionId\<close> after the
  failed transaction is one more than before it.
\<close>

lemma exception_safety_calls:
  assumes "runInTransaction True (DebugContext (Some e)) (then_throw (perform True C calls) x) this
             = (result, this')"
  shows "transactionId this' = transactionId this + 1"
proof -
  obtain d where e: "e = Env d" by (cases e)
  let ?this1 = "this\<lparr>inTransaction := True, shouldReflush := False, debugStack := d\<rparr>"
  obtain r this2 where p: "perform True C calls ?this1 = (r, this2)"
    by (cases "perform True C calls ?this1")
  from perform_returns [OF p] have "transactionId this2 = transactionId this" by simp
  moreover have "this' = after True this2"
    using assms p e
    by (cases r) (simp_all add: runInTransaction_def before_returns then_throw_def seq_def)
  ultimately show ?thesis by (simp add: after_eq)
qed

subsection \<open>The non-debug build\<close>

text \<open>
  C7. The \<^verbatim>\<open>runInTransaction\<close> of the non-debug build, which is what a module loaded
  with \<^verbatim>\<open>DEBUG = false\<close> exports: it runs the operation once (a counter of invocations
  goes up by one, and the state left is the operation's), its result is never true, it is
  false whenever the operation returns, and a value the operation throws goes on to the
  caller.
\<close>

theorem release_reports_no_reflush:
  "runInTransaction_export ctx operation (load False)
     = runInTransaction_release ctx operation ReleaseModule
   \<and> fst (runInTransaction_release ctx' operation' w) \<noteq> Inr True
   \<and> fst (runInTransaction_release ctx' operation' w)
       = (case fst (operation' w) of None \<Rightarrow> Inr False | Some x \<Rightarrow> Inl x)
   \<and> snd (runInTransaction_release ctx' operation' w) = snd (operation' w)
   \<and> fst (snd (runInTransaction_release ctx' (counted operation') (n, w))) = Suc n"
  by (simp add: load_def runInTransaction_release_def counted_def split: prod.split option.split)

text \<open>
  C2, as stated: in either build, \<^verbatim>\<open>assertNotRendered\<close> on a pair marked earlier in the
  same transaction sets the reflush flag, unconditionally. In the module loaded with
  \<^verbatim>\<open>DEBUG = true\<close> the diagnostic block runs first: with an assertion facility that throws
  on a false condition, or with an object that has no conversion to a string, the call
  throws and the flag stays false, and the transaction ends with the flag false.
\<close>

theorem reflush_signal_skipped:
  "assertNotRendered True throwing 5 ''x''
      \<lparr>transactionId = 0, inTransaction = True, shouldReflush = False,
       weakMap = [5 \<mapsto> [''x'' \<mapsto> Rendered Opaque (Some ''application'')]],
       debugStack = Some (DebugStack (Some ''application''))\<rparr>
    = (Some (Thrown (''Assertion Failed: '' @
          message ''[object Object]'' ''in application'' (Some ''application''))),
       \<lparr>transactionId = 0, inTransaction = True, shouldReflush = False,
        weakMap = [5 \<mapsto> [''x'' \<mapsto> Rendered Opaque (Some ''application'')]],
        debugStack = Some (DebugStack (Some ''application''))\<rparr>)
   \<and> assertNotRendered True null_prototype 5 ''x''
      \<lparr>transactionId = 0, inTransaction = True, shouldReflush = False,
       weakMap = [5 \<mapsto> [''x'' \<mapsto> Rendered Opaque (Some ''application'')]],
       debugStack = Some (DebugStack (Some ''application''))\<rparr>
    = (Some (TypeError ''Cannot convert object to primitive value''),
       \<lparr>transactionId = 0, inTransaction = True, shouldReflush = False,
        weakMap = [5 \<mapsto> [''x'' \<mapsto> Rendered Opaque (Some ''application'')]],
        debugStack = Some (DebugStack (Some ''application''))\<rparr>)
   \<and> runInTransaction_export (context_with (DebugStack (Some ''application'')))
      (seq (didRender_export 5 ''x'' Opaque) (assertNotRendered_export throwing 5 ''x''))
      (load True)
    = (Inl (Thrown (''Assertion Failed: '' @
          message ''[object Object]'' ''in application'' (Some ''application''))),
       DebugModule
         \<lparr>transactionId = 1, inTransaction = False, shouldReflush = False,
          weakMap = Map.empty, debugStack = None\<rparr>)"
  by (simp add: load_def seq_def on_runner_def runner_defs context_with_def throwing_def
      null_prototype_def)

text \<open>
  C2, amended. Inside the runner (which only a debug build creates), in a transaction
  that has its stack: after \<^verbatim>\<open>didRender(object, key, reference)\<close> and any further calls,
  the pair has a record, and \<^verbatim>\<open>assertNotRendered(object, key)\<close> runs its diagnostic block
  (\<^verbatim>\<open>debug()\<close> of the recorded reference, the conversion of the object to a string,
  \<^verbatim>\<open>assert(message, false)\<close>) and sets \<^verbatim>\<open>shouldReflush\<close> exactly when the block returns;
  when the block throws, the value goes on and the runner is unchanged. The method's own
  non-debug branch runs no diagnostic and always sets the flag. In the non-debug build the
  two exported functions are unassigned, there is no flag, and \<^verbatim>\<open>runInTransaction\<close>
  reports a reflush for no operation.
\<close>

theorem hazard_sets_flag_when_diagnostic_returns:
  assumes "inTransaction this" and "debugStack this = Some stack"
  shows "assertNotRendered DEBUG C object key
           (snd (perform DEBUG C (DidRender object key reference # calls) this))
         = (case (if DEBUG
                  then diagnostic C object
                         (getKey object key
                            (snd (perform DEBUG C (DidRender object key reference # calls) this)))
                         (Some stack)
                  else None) of
              None \<Rightarrow>
                (None, (snd (perform DEBUG C (DidRender object key reference # calls) this))
                         \<lparr>shouldReflush := True\<rparr>)
            | Some e \<Rightarrow>
                (Some e, snd (perform DEBUG C (DidRender object key reference # calls) this)))
    \<and> hasRendered DEBUG object key
         (snd (perform DEBUG C (DidRender object key reference # calls) this))
    \<and> getKey object key (snd (didRender True object key reference this))
        = Some (Rendered reference (peek stack))
    \<and> didRender_export object key reference (load False)
        = (Some (TypeError ''didRender is not a function''), load False)
    \<and> assertNotRendered_export C object key (load False)
        = (Some (TypeError ''assertNotRendered is not a function''), load False)
    \<and> reflush_flag (load False) = None
    \<and> fst (runInTransaction_export ctx operation (load False)) \<noteq> Inr True"
proof -
  define this1 where "this1 = snd (didRender DEBUG object key reference this)"
  have d: "didRender DEBUG object key reference this = (None, this1)"
    using assms by (simp add: this1_def didRender_def)
  from didRender_records [OF assms(1), of DEBUG object key reference] d
  have h1: "hasRendered DEBUG object key this1" by simp
  let ?s = "snd (perform DEBUG C (DidRender object key reference # calls) this)"
  have s: "?s = snd (perform DEBUG C calls this1)"
    by (simp add: d)
  from perform_keeps [OF h1, of C calls] s have h: "hasRendered DEBUG object key ?s"
    by simp
  have "debugStack ?s = debugStack this"
    using perform_returns [of DEBUG C "DidRender object key reference # calls" this
        "fst (perform DEBUG C (DidRender object key reference # calls) this)" ?s]
    by simp
  with assms(2) have st: "debugStack ?s = Some stack" by simp
  have sets: "assertNotRendered DEBUG C object key ?s
      = (case (if DEBUG then diagnostic C object (getKey object key ?s) (Some stack) else None) of
           None \<Rightarrow> (None, ?s\<lparr>shouldReflush := True\<rparr>)
         | Some e \<Rightarrow> (Some e, ?s))"
    using assertNotRendered_rendered [OF h, of C] unfolding st .
  have stored: "getKey object key (snd (didRender True object key reference this))
      = Some (Rendered reference (peek stack))"
    using assms by (simp add: didRender_def getKey_setKey)
  have release: "fst (runInTransaction_export ctx operation (load False)) \<noteq> Inr True"
    by (simp add: load_def runInTransaction_release_def split: prod.split option.split)
  have unassigned: "didRender_export object key reference (load False)
        = (Some (TypeError ''didRender is not a function''), load False)"
    "assertNotRendered_export C object key (load False)
        = (Some (TypeError ''assertNotRendered is not a function''), load False)"
    "reflush_flag (load False) = None"
    by (simp_all add: load_def)
  from sets h stored unassigned release show ?thesis
    by blast
qed

theorem hazard_sets_flag_when_diagnostic_returns_witness:
  "assertNotRendered True logging 5 ''x''
     (snd (perform True logging [DidRender 5 ''x'' Opaque, DidRender 6 ''y'' Falsy]
        \<lparr>transactionId = 0, inTransaction = True, shouldReflush = False, weakMap = Map.empty,
         debugStack = Some (DebugStack (Some ''application''))\<rparr>))
   = (None,
      \<lparr>transactionId = 0, inTransaction = True, shouldReflush = True,
       weakMap = [5 \<mapsto> [''x'' \<mapsto> Rendered Opaque (Some ''application'')],
                  6 \<mapsto> [''y'' \<mapsto> Rendered Falsy (Some ''application'')]],
       debugStack = Some (DebugStack (Some ''application''))\<rparr>)"
proof -
  let ?start = "\<lparr>transactionId = 0, inTransaction = True, shouldReflush = False,
      weakMap = Map.empty, debugStack = Some (DebugStack (Some ''application''))\<rparr>"
  have active: "inTransaction ?start"
    and stack: "debugStack ?start = Some (DebugStack (Some ''application''))"
    by simp_all
  have state: "snd (perform True logging [DidRender 5 ''x'' Opaque, DidRender 6 ''y'' Falsy] ?start)
      = \<lparr>transactionId = 0, inTransaction = True, shouldReflush = False,
         weakMap = [5 \<mapsto> [''x'' \<mapsto> Rendered Opaque (Some ''application'')],
                    6 \<mapsto> [''y'' \<mapsto> Rendered Falsy (Some ''application'')]],
         debugStack = Some (DebugStack (Some ''application''))\<rparr>"
    by (simp add: runner_defs)
  from hazard_sets_flag_when_diagnostic_returns [OF active stack, of True logging 5 "''x''"
      Opaque "[DidRender 6 ''y'' Falsy]"]
  have "assertNotRendered True logging 5 ''x''
          (snd (perform True logging [DidRender 5 ''x'' Opaque, DidRender 6 ''y'' Falsy] ?start))
        = (case diagnostic logging 5
                  (getKey 5 ''x''
                     (snd (perform True logging
                             [DidRender 5 ''x'' Opaque, DidRender 6 ''y'' Falsy] ?start)))
                  (Some (DebugStack (Some ''application''))) of
             None \<Rightarrow>
               (None,
                (snd (perform True logging
                        [DidRender 5 ''x'' Opaque, DidRender 6 ''y'' Falsy] ?start))
                  \<lparr>shouldReflush := True\<rparr>)
           | Some e \<Rightarrow>
               (Some e,
                snd (perform True logging
                       [DidRender 5 ''x'' Opaque, DidRender 6 ''y'' Falsy] ?start)))"
    by simp
  then show ?thesis
    by (simp only: state) (simp add: diagnostic_def label_def getKey_def logging_def)
qed

end
